theory Spec2Isabelle
  imports Complex_Main
begin

section \<open>Python values and exceptions\<close>

text \<open>
  The program is a single Python module, \<^verbatim>\<open>AI.py\<close>. Moves are the Python strings
  \<^verbatim>\<open>"R"\<close>, \<^verbatim>\<open>"P"\<close> and \<^verbatim>\<open>"S"\<close>; the module has no move type, so the model keeps
  them as strings. Every exception the module can raise is a value of \<open>error\<close>, and a
  function that can raise returns \<open>error + 'a\<close>.
\<close>

datatype error =
    TypeError | KeyError | IndexError | ValueError | ZeroDivisionError | RecursionError
  | EOFError | SystemExit

type_synonym move = string

text \<open>A round of the history is the pair (own move, opponent's move).\<close>

type_synonym history = "(move \<times> move) list"

definition is_move :: "move \<Rightarrow> bool" where
  "is_move m = (m \<in> set [''R'', ''P'', ''S''])"

section \<open>Dictionaries with integer values\<close>

text \<open>
  A Python dict keeps its keys in insertion order, and assigning to a key that is present
  keeps its place: the count tables are association lists.
  \<open>dict_incr d k\<close> is \<^verbatim>\<open>d[k] += 1\<close>, which raises KeyError when \<open>k\<close> is absent.
  \<open>dict_argmax d\<close> is \<^verbatim>\<open>max(d, key=d.get)\<close>: \<^verbatim>\<open>max\<close> walks the keys in order and
  replaces its candidate only for a strictly larger key value, and raises ValueError on
  an empty dict.
\<close>

fun dict_incr :: "('k \<times> int) list \<Rightarrow> 'k \<Rightarrow> error + ('k \<times> int) list" where
  "dict_incr [] k = Inl KeyError"
| "dict_incr ((k', v) # d) k =
     (if k' = k then Inr ((k', v + 1) # d)
      else (case dict_incr d k of Inl e \<Rightarrow> Inl e | Inr d' \<Rightarrow> Inr ((k', v) # d')))"

primrec max_from :: "'k \<times> int \<Rightarrow> ('k \<times> int) list \<Rightarrow> 'k \<times> int" where
  "max_from best [] = best"
| "max_from best (kv # d) = max_from (if snd kv > snd best then kv else best) d"

definition dict_argmax :: "('k \<times> int) list \<Rightarrow> error + 'k" where
  "dict_argmax d = (case d of [] \<Rightarrow> Inl ValueError | kv # d' \<Rightarrow> Inr (fst (max_from kv d')))"

section \<open>Reward\<close>

definition get_reward :: "move \<Rightarrow> move \<Rightarrow> int" where
  "get_reward my_move opponent_move =
     (if my_move = opponent_move then 0
      else if (my_move, opponent_move) \<in> set [(''R'', ''S''), (''P'', ''R''), (''S'', ''P'')] then 1
      else - 1)"

section \<open>FrequencyCounter\<close>

definition FrequencyCounter_init :: "(move \<times> int) list" where
  "FrequencyCounter_init = [(''R'', 0), (''P'', 0), (''S'', 0)]"

definition FrequencyCounter_predict :: "(move \<times> int) list \<Rightarrow> error + move" where
  "FrequencyCounter_predict counts = dict_argmax counts"

definition FrequencyCounter_update :: "(move \<times> int) list \<Rightarrow> move \<Rightarrow> error + (move \<times> int) list" where
  "FrequencyCounter_update counts opponent_move = dict_incr counts opponent_move"

text \<open>The counter after a sequence of rounds, given the opponent's moves in order.\<close>

fun FrequencyCounter_run :: "(move \<times> int) list \<Rightarrow> move list \<Rightarrow> error + (move \<times> int) list" where
  "FrequencyCounter_run counts [] = Inr counts"
| "FrequencyCounter_run counts (m # ms) =
     (case FrequencyCounter_update counts m of
        Inl e \<Rightarrow> Inl e
      | Inr counts' \<Rightarrow> FrequencyCounter_run counts' ms)"

text \<open>The answer the tie order R, P, S gives on three counts.\<close>

definition first_max_RPS :: "int \<Rightarrow> int \<Rightarrow> int \<Rightarrow> move" where
  "first_max_RPS r p s =
     (if p \<le> r \<and> s \<le> r then ''R'' else if s \<le> p then ''P'' else ''S'')"

section \<open>Randomness\<close>

text \<open>
  The module draws from Python's \<^verbatim>\<open>random\<close>. The model takes the outcomes as given:
  \<open>choices g k\<close> is the index the k-th coming call of \<^verbatim>\<open>random.choice\<close> picks (taken
  modulo the length of the sequence), \<open>uniforms g k\<close> the value of the k-th coming call of
  \<^verbatim>\<open>random.random()\<close>. A draw returns its outcome and the source advanced by one.
\<close>

record rng =
  choices :: "nat \<Rightarrow> nat"
  uniforms :: "nat \<Rightarrow> real"

definition random_choice :: "rng \<Rightarrow> move \<times> rng" where
  "random_choice g =
     ([''R'', ''P'', ''S''] ! (choices g 0 mod 3), g\<lparr>choices := (\<lambda>k. choices g (Suc k))\<rparr>)"

definition random_random :: "rng \<Rightarrow> real \<times> rng" where
  "random_random g = (uniforms g 0, g\<lparr>uniforms := (\<lambda>k. uniforms g (Suc k))\<rparr>)"

section \<open>FirstOrderMarkov and MirrorStrategy\<close>

text \<open>
  \<^verbatim>\<open>self.last\<close> is None or a string, and \<^verbatim>\<open>if self.last\<close> is false for None and for
  the empty string: \<open>truthy\<close> gives the string the test lets through.
\<close>

definition truthy :: "string option \<Rightarrow> string option" where
  "truthy v = (case v of None \<Rightarrow> None | Some s \<Rightarrow> if s = [] then None else Some s)"

definition FirstOrderMarkov_init :: "(move \<times> (move \<times> int) list) list" where
  "FirstOrderMarkov_init =
     [(''R'', [(''R'', 1), (''P'', 1), (''S'', 1)]),
      (''P'', [(''R'', 1), (''P'', 1), (''S'', 1)]),
      (''S'', [(''R'', 1), (''P'', 1), (''S'', 1)])]"

definition FirstOrderMarkov_predict ::
  "(move \<times> (move \<times> int) list) list \<Rightarrow> move option \<Rightarrow> rng \<Rightarrow> error + (move \<times> rng)" where
  "FirstOrderMarkov_predict transitions last_move g =
     (case truthy last_move of
        None \<Rightarrow> Inr (random_choice g)
      | Some prev \<Rightarrow>
          (case map_of transitions prev of
             None \<Rightarrow> Inl KeyError
           | Some next_probs \<Rightarrow>
               (case dict_argmax next_probs of Inl e \<Rightarrow> Inl e | Inr m \<Rightarrow> Inr (m, g))))"

text \<open>\<^verbatim>\<open>self.transitions[self.last][opponent_move] += 1\<close>: either lookup can raise KeyError.\<close>

fun nested_incr ::
  "(move \<times> (move \<times> int) list) list \<Rightarrow> move \<Rightarrow> move \<Rightarrow> error + (move \<times> (move \<times> int) list) list" where
  "nested_incr [] prev opponent_move = Inl KeyError"
| "nested_incr ((k, row) # t) prev opponent_move =
     (if k = prev
      then (case dict_incr row opponent_move of Inl e \<Rightarrow> Inl e | Inr row' \<Rightarrow> Inr ((k, row') # t))
      else (case nested_incr t prev opponent_move of
              Inl e \<Rightarrow> Inl e
            | Inr t' \<Rightarrow> Inr ((k, row) # t')))"

definition FirstOrderMarkov_update ::
  "(move \<times> (move \<times> int) list) list \<Rightarrow> move option \<Rightarrow> move
     \<Rightarrow> error + ((move \<times> (move \<times> int) list) list \<times> move option)" where
  "FirstOrderMarkov_update transitions last_move opponent_move =
     (case truthy last_move of
        Some prev \<Rightarrow>
          (case nested_incr transitions prev opponent_move of
             Inl e \<Rightarrow> Inl e
           | Inr transitions' \<Rightarrow> Inr (transitions', Some opponent_move))
      | None \<Rightarrow> Inr (transitions, Some opponent_move))"

definition MirrorStrategy_predict :: "history \<Rightarrow> rng \<Rightarrow> error + (move \<times> rng)" where
  "MirrorStrategy_predict h g = (if h = [] then Inr (random_choice g) else Inr (snd (last h), g))"

section \<open>Strategy objects\<close>

text \<open>
  Strategy objects live in a heap, addressed by references, because a
  FuzzyVotingStrategy keeps a reference to a list of strategies that others also hold.
  The list \<^verbatim>\<open>self.strategies\<close> of an ensemble is given by its contents; the program does
  not change that list once the round loop runs.

  A method call takes one stack frame. \<open>predict\<close> and \<open>update_strategy\<close> take the number
  of frames left and raise RecursionError when none is: an ensemble that is a member of
  its own list recurses until then.
\<close>

type_synonym ref = nat

datatype strategy =
    FrequencyCounter "(move \<times> int) list"
  | FirstOrderMarkov "(move \<times> (move \<times> int) list) list" "move option"
  | MirrorStrategy
  | FuzzyVotingStrategy "ref list"

type_synonym heap = "ref \<Rightarrow> strategy"

fun predict :: "nat \<Rightarrow> heap \<Rightarrow> history \<Rightarrow> ref \<Rightarrow> rng \<Rightarrow> error + (move \<times> rng)"
  and tally :: "nat \<Rightarrow> heap \<Rightarrow> history \<Rightarrow> ref list \<Rightarrow> (move \<times> int) list \<Rightarrow> rng
                  \<Rightarrow> error + ((move \<times> int) list \<times> rng)" where
  "predict 0 H h r g = Inl RecursionError"
| "predict (Suc d) H h r g =
     (case H r of
        FrequencyCounter counts \<Rightarrow>
          (case FrequencyCounter_predict counts of Inl e \<Rightarrow> Inl e | Inr m \<Rightarrow> Inr (m, g))
      | FirstOrderMarkov transitions last_move \<Rightarrow>
          FirstOrderMarkov_predict transitions last_move g
      | MirrorStrategy \<Rightarrow> MirrorStrategy_predict h g
      | FuzzyVotingStrategy members \<Rightarrow>
          (case tally d H h members [(''R'', 0), (''P'', 0), (''S'', 0)] g of
             Inl e \<Rightarrow> Inl e
           | Inr (vote, g') \<Rightarrow>
               (case dict_argmax vote of Inl e \<Rightarrow> Inl e | Inr m \<Rightarrow> Inr (m, g'))))"
| "tally d H h [] vote g = Inr (vote, g)"
| "tally d H h (s # ss) vote g =
     (case predict d H h s g of
        Inl e \<Rightarrow> Inl e
      | Inr (prediction, g') \<Rightarrow>
          (case dict_incr vote prediction of
             Inl e \<Rightarrow> Inl e
           | Inr vote' \<Rightarrow> tally d H h ss vote' g'))"

fun update_strategy :: "nat \<Rightarrow> heap \<Rightarrow> ref \<Rightarrow> move \<Rightarrow> move \<Rightarrow> error + heap"
  and update_each :: "nat \<Rightarrow> heap \<Rightarrow> ref list \<Rightarrow> move \<Rightarrow> move \<Rightarrow> error + heap" where
  "update_strategy 0 H r my_move opponent_move = Inl RecursionError"
| "update_strategy (Suc d) H r my_move opponent_move =
     (case H r of
        FrequencyCounter counts \<Rightarrow>
          (case FrequencyCounter_update counts opponent_move of
             Inl e \<Rightarrow> Inl e
           | Inr counts' \<Rightarrow> Inr (H(r := FrequencyCounter counts')))
      | FirstOrderMarkov transitions last_move \<Rightarrow>
          (case FirstOrderMarkov_update transitions last_move opponent_move of
             Inl e \<Rightarrow> Inl e
           | Inr (transitions', last_move') \<Rightarrow>
               Inr (H(r := FirstOrderMarkov transitions' last_move')))
      | MirrorStrategy \<Rightarrow> Inr H
      | FuzzyVotingStrategy members \<Rightarrow> update_each d H members my_move opponent_move)"
| "update_each d H [] my_move opponent_move = Inr H"
| "update_each d H (s # ss) my_move opponent_move =
     (case update_strategy d H s my_move opponent_move of
        Inl e \<Rightarrow> Inl e
      | Inr H' \<Rightarrow> update_each d H' ss my_move opponent_move)"

section \<open>BanditController\<close>

text \<open>
  \<^verbatim>\<open>self.strategies\<close> is whatever the constructor was given: a list of strategies, or
  None. The controller only takes its length. A context key is the tuple of the last
  three rounds, or \<^verbatim>\<open>(None, None, None)\<close>. The statistics of a context are a dict from
  index to the pair [cumulative reward, pull count]; rewards are floats, modelled as reals
  (rounding is not modelled), counts are ints.

  A method that raises may already have changed the controller, so both methods return
  the outcome together with the controller afterwards.
\<close>

type_synonym "context" = "(move \<times> move) option list"

type_synonym arm_stats = "(nat \<times> (real \<times> int)) list"

record BanditController =
  strategies :: "ref list option"
  context_memory :: "context \<Rightarrow> arm_stats option"

definition BanditController_init :: "ref list option \<Rightarrow> BanditController" where
  "BanditController_init ss = \<lparr>strategies = ss, context_memory = (\<lambda>_. None)\<rparr>"

definition context_key :: "history \<Rightarrow> context" where
  "context_key h =
     (if length h < 3 then [None, None, None] else map Some (drop (length h - 3) h))"

text \<open>
  Lines 83-86 and 97-100: the statistics of a context, created on first sight with
  \<^verbatim>\<open>{i: [0.0, 1] for i in range(len(self.strategies))}\<close>; \<^verbatim>\<open>len(None)\<close> raises TypeError.
\<close>

definition fresh_stats :: "ref list option \<Rightarrow> error + arm_stats" where
  "fresh_stats ss =
     (case ss of
        None \<Rightarrow> Inl TypeError
      | Some l \<Rightarrow> Inr (map (\<lambda>i. (i, (0, 1))) [0..<length l]))"

definition ensure_context :: "BanditController \<Rightarrow> context \<Rightarrow> (error + arm_stats) \<times> BanditController" where
  "ensure_context c ctx =
     (case context_memory c ctx of
        Some stats \<Rightarrow> (Inr stats, c)
      | None \<Rightarrow>
          (case fresh_stats (strategies c) of
             Inl e \<Rightarrow> (Inl e, c)
           | Inr stats \<Rightarrow> (Inr stats, c\<lparr>context_memory := (context_memory c)(ctx \<mapsto> stats)\<rparr>)))"

definition total_pulls :: "arm_stats \<Rightarrow> int" where
  "total_pulls stats = sum_list (map (\<lambda>(i, r, c). c) stats)"

text \<open>
  One element of the list comprehension of lines 88-92, in Python's evaluation order:
  the lookup of index i (KeyError), the division by the pull count (ZeroDivisionError),
  \<^verbatim>\<open>math.log(total)\<close> (ValueError unless the total \<open>tot\<close> is positive), and the power
  \<^verbatim>\<open>** 0.5\<close>, which on a negative float gives a complex number: \<open>None\<close> here.

  Python computes the score in double precision; the model computes it in exact reals.
  Which exceptions are raised does not depend on the difference, but the order of two
  scores that are closer than the rounding error can: what the lemmas below say about
  the largest score is about the exact scores.
\<close>

definition ucb_score :: "arm_stats \<Rightarrow> int \<Rightarrow> nat \<Rightarrow> error + real option" where
  "ucb_score stats tot i =
     (case map_of stats i of
        None \<Rightarrow> Inl KeyError
      | Some (r, c) \<Rightarrow>
          if c = 0 then Inl ZeroDivisionError
          else if tot \<le> 0 then Inl ValueError
          else if ln (real_of_int tot) / real_of_int c < 0 then Inr None
          else Inr (Some (r / real_of_int c
                          + 2 * (ln (real_of_int tot) / real_of_int c) powr (1 / 2))))"

fun ucb_scores :: "arm_stats \<Rightarrow> int \<Rightarrow> nat list \<Rightarrow> error + real option list" where
  "ucb_scores stats tot [] = Inr []"
| "ucb_scores stats tot (i # is) =
     (case ucb_score stats tot i of
        Inl e \<Rightarrow> Inl e
      | Inr x \<Rightarrow>
          (case ucb_scores stats tot is of Inl e \<Rightarrow> Inl e | Inr xs \<Rightarrow> Inr (x # xs)))"

text \<open>
  \<^verbatim>\<open>xs.index(v)\<close> is the first position of v. \<^verbatim>\<open>max(xs)\<close> raises ValueError on an empty
  list, returns the only element of a one-element list without comparing, and raises
  TypeError when it has to compare a complex number.
\<close>

primrec py_index :: "'a list \<Rightarrow> 'a \<Rightarrow> nat option" where
  "py_index [] v = None"
| "py_index (x # xs) v = (if x = v then Some 0 else map_option Suc (py_index xs v))"

definition index_of_max :: "real option list \<Rightarrow> error + nat" where
  "index_of_max xs =
     (case xs of
        [] \<Rightarrow> Inl ValueError
      | [x] \<Rightarrow> Inr 0
      | x # y # ys \<Rightarrow>
          if None \<in> set xs then Inl TypeError
          else (case py_index (map the xs) (fold max (map the (y # ys)) (the x)) of
                  None \<Rightarrow> Inl ValueError
                | Some i \<Rightarrow> Inr i))"

definition select_strategy :: "BanditController \<Rightarrow> history \<Rightarrow> (error + nat) \<times> BanditController" where
  "select_strategy c h =
     (case ensure_context c (context_key h) of
        (Inl e, c') \<Rightarrow> (Inl e, c')
      | (Inr stats, c') \<Rightarrow>
          (case strategies c' of
             None \<Rightarrow> (Inl TypeError, c')
           | Some l \<Rightarrow>
               (case ucb_scores stats (total_pulls stats) [0..<length l] of
                  Inl e \<Rightarrow> (Inl e, c')
                | Inr scores \<Rightarrow> (index_of_max scores, c'))))"

text \<open>\<^verbatim>\<open>stats[index][0] += reward; stats[index][1] += 1\<close>, KeyError when index is no key.\<close>

fun add_pull :: "arm_stats \<Rightarrow> nat \<Rightarrow> int \<Rightarrow> error + arm_stats" where
  "add_pull [] index reward = Inl KeyError"
| "add_pull ((i, r, c) # stats) index reward =
     (if i = index then Inr ((i, r + real_of_int reward, c + 1) # stats)
      else (case add_pull stats index reward of
              Inl e \<Rightarrow> Inl e
            | Inr stats' \<Rightarrow> Inr ((i, r, c) # stats')))"

definition BanditController_update ::
  "BanditController \<Rightarrow> history \<Rightarrow> nat \<Rightarrow> int \<Rightarrow> (error + unit) \<times> BanditController" where
  "BanditController_update c h index reward =
     (case ensure_context c (context_key h) of
        (Inl e, c') \<Rightarrow> (Inl e, c')
      | (Inr stats, c') \<Rightarrow>
          (case add_pull stats index reward of
             Inl e \<Rightarrow> (Inl e, c')
           | Inr stats' \<Rightarrow>
               (Inr (), c'\<lparr>context_memory := (context_memory c')(context_key h \<mapsto> stats')\<rparr>)))"

section \<open>Utility functions\<close>

definition counter_move :: "move \<Rightarrow> rng \<Rightarrow> error + (move \<times> rng)" where
  "counter_move m g =
     (case random_random g of
        (u, g1) \<Rightarrow>
          if u < 5 / 100 then Inr (random_choice g1)
          else (case map_of [(''R'', ''P''), (''P'', ''S''), (''S'', ''R'')] m of
                  None \<Rightarrow> Inl KeyError
                | Some c \<Rightarrow> Inr (c, g1)))"

text \<open>
  \<^verbatim>\<open>str.upper\<close> on ASCII text: the letters a to z change, every other character stays.
  Input outside ASCII is not modelled.
\<close>

definition upper_char :: "char \<Rightarrow> char" where
  "upper_char c =
     (case map_of (zip ''abcdefghijklmnopqrstuvwxyz'' ''ABCDEFGHIJKLMNOPQRSTUVWXYZ'') c of
        None \<Rightarrow> c
      | Some u \<Rightarrow> u)"

definition upper :: "string \<Rightarrow> string" where
  "upper s = map upper_char s"

text \<open>
  For strings, \<^verbatim>\<open>a in b\<close> asks whether a occurs in b as a substring: \<open>str_in a b\<close>.
\<close>

fun starts_with :: "string \<Rightarrow> string \<Rightarrow> bool" where
  "starts_with b [] = True"
| "starts_with [] (x # a) = False"
| "starts_with (y # b) (x # a) = (y = x \<and> starts_with b a)"

fun str_in :: "string \<Rightarrow> string \<Rightarrow> bool" where
  "str_in a [] = (a = [])"
| "str_in a (y # b) = (starts_with (y # b) a \<or> str_in a b)"

text \<open>
  The lines still to come on standard input are a list; \<^verbatim>\<open>input()\<close> takes the first and
  raises EOFError when there is none, \<^verbatim>\<open>exit()\<close> raises SystemExit. The function returns
  the move and the lines left. The prompt and the help line it prints are not modelled.
\<close>

fun get_opponent_move :: "string list \<Rightarrow> error + (string \<times> string list)" where
  "get_opponent_move [] = Inl EOFError"
| "get_opponent_move (line # rest) =
     (if str_in (upper line) ''RPS'' \<and> upper line \<noteq> [] then Inr (upper line, rest)
      else if upper line = ''E'' then Inl SystemExit
      else get_opponent_move rest)"

text \<open>
  \<^verbatim>\<open>collections.Counter(moves).values()\<close> is the number of occurrences of each distinct
  move. The floats are modelled as reals.
\<close>

definition entropy :: "move list \<Rightarrow> real" where
  "entropy moves =
     (let counts = map (count_list moves) (remdups moves);
          tot = sum_list counts
      in if tot > 0
         then - sum_list (map (\<lambda>count. (real count / real tot) * log 2 (real count / real tot)) counts)
         else 0)"

section \<open>The main loop\<close>

text \<open>
  The local variables of \<^verbatim>\<open>play_rps\<close>, the heap of strategy objects, and the lines
  printed so far. A printed line is kept as the four values its f-string formats.
\<close>

record report_line =
  you :: move
  ai :: move
  message :: string
  ratio_percent :: real

record rps_state =
  history :: history
  raw_opponent_moves :: "move list"
  objects :: heap
  strategies_local :: "ref list option"
  bandit :: BanditController
  entropy_stable_rounds :: int
  plays :: int
  entropy_counter :: int
  ai_wins :: int
  player_wins :: int
  printed :: "report_line list"

definition entropy_threshold :: real where
  "entropy_threshold = 3 / 2"

definition entropy_window :: int where
  "entropy_window = 10"

text \<open>
  Lines 146-160. The three base strategies are the objects 0, 1, 2 and the ensemble is
  object 3. \<^verbatim>\<open>base_strategies\<close> is the list the ensemble was given, so after
  \<^verbatim>\<open>base_strategies.append(fuzzy)\<close> the ensemble's own list is [0, 1, 2, 3]. The
  variable \<^verbatim>\<open>strategies\<close> is bound to what \<^verbatim>\<open>list.append\<close> returns, which is None, and
  the controller is built from it.
\<close>

definition play_rps_objects :: heap where
  "play_rps_objects =
     (\<lambda>r. if r = 0 then FrequencyCounter FrequencyCounter_init
          else if r = 1 then FirstOrderMarkov FirstOrderMarkov_init None
          else if r = 2 then MirrorStrategy
          else FuzzyVotingStrategy [0, 1, 2, 3])"

definition play_rps_init :: rps_state where
  "play_rps_init =
     \<lparr>history = [], raw_opponent_moves = [], objects = play_rps_objects,
      strategies_local = None, bandit = BanditController_init None,
      entropy_stable_rounds = 0, plays = 0, entropy_counter = 0, ai_wins = 0,
      player_wins = 0, printed = []\<rparr>"

text \<open>\<^verbatim>\<open>strategies[strat_idx]\<close> and \<^verbatim>\<open>for strat in strategies\<close>: None supports neither.\<close>

definition subscript :: "ref list option \<Rightarrow> nat \<Rightarrow> error + ref" where
  "subscript ss i =
     (case ss of
        None \<Rightarrow> Inl TypeError
      | Some l \<Rightarrow> if i < length l then Inr (l ! i) else Inl IndexError)"

definition update_all :: "nat \<Rightarrow> heap \<Rightarrow> ref list option \<Rightarrow> move \<Rightarrow> move \<Rightarrow> error + heap" where
  "update_all d H ss my_move opponent_move =
     (case ss of
        None \<Rightarrow> Inl TypeError
      | Some l \<Rightarrow> update_each d H l my_move opponent_move)"

text \<open>
  Lines 174-184, the meta-switching block. \<open>evaluates\<close> is the guard of line 174 and
  \<open>stable_after\<close> the counter after lines 176-179; the block of lines 182-184 runs when
  that counter is at least 3. \<^verbatim>\<open>xs[-10:]\<close> is the whole list when it has fewer than ten
  elements.
\<close>

definition evaluates :: "rps_state \<Rightarrow> bool" where
  "evaluates s = (entropy_counter s \<ge> entropy_window)"

definition recent_entropy :: "rps_state \<Rightarrow> real" where
  "recent_entropy s =
     entropy (drop (length (raw_opponent_moves s) - nat entropy_window) (raw_opponent_moves s))"

definition stable_after :: "rps_state \<Rightarrow> int" where
  "stable_after s =
     (if recent_entropy s > entropy_threshold then entropy_stable_rounds s + 1 else 0)"

definition meta_switching :: "rps_state \<Rightarrow> rps_state" where
  "meta_switching s =
     (if evaluates s
      then if stable_after s \<ge> 3
           then s\<lparr>entropy_counter := entropy_counter s mod entropy_window,
                  bandit := BanditController_init (strategies_local s),
                  entropy_stable_rounds := 0\<rparr>
           else s\<lparr>entropy_stable_rounds := stable_after s\<rparr>
      else s)"

text \<open>Lines 193-200: the win counters, the ratio and the printed line.\<close>

definition report :: "rps_state \<Rightarrow> move \<Rightarrow> move \<Rightarrow> int \<Rightarrow> error + rps_state" where
  "report s my_move opponent_move reward =
     (let player_won = (reward = 0);
          s1 = (if player_won then s\<lparr>player_wins := player_wins s + 1\<rparr>
                else s\<lparr>ai_wins := ai_wins s + 1\<rparr>)
      in if plays s1 = 0 then Inl ZeroDivisionError
         else Inr (s1\<lparr>printed := printed s1 @
                     [\<lparr>you = opponent_move, ai = my_move,
                       message = (if player_won then ''You win!'' else ''AI wins!''),
                       ratio_percent = real_of_int (ai_wins s1) / real_of_int (plays s1) * 100\<rparr>]\<rparr>))"

text \<open>
  One pass through the body of \<^verbatim>\<open>while True\<close>, lines 162-200, with \<open>d\<close> stack frames
  left for method calls, the random source \<open>g\<close> and the input lines \<open>inp\<close>. An exception
  ends the program, so a round gives the exception or the state, random source and input
  it leaves.
\<close>

definition play_round ::
  "nat \<Rightarrow> rps_state \<Rightarrow> rng \<Rightarrow> string list \<Rightarrow> error + (rps_state \<times> rng \<times> string list)" where
  "play_round d s0 g0 inp0 =
     (let s1 = s0\<lparr>plays := plays s0 + 1, entropy_counter := entropy_counter s0 + 1\<rparr> in
      case select_strategy (bandit s1) (history s1) of
        (Inl e, b) \<Rightarrow> Inl e
      | (Inr strat_idx, b) \<Rightarrow>
      let s2 = s1\<lparr>bandit := b\<rparr> in
      case subscript (strategies_local s2) strat_idx of
        Inl e \<Rightarrow> Inl e
      | Inr strategy \<Rightarrow>
      case predict d (objects s2) (history s2) strategy g0 of
        Inl e \<Rightarrow> Inl e
      | Inr (opponent_pred, g1) \<Rightarrow>
      case counter_move opponent_pred g1 of
        Inl e \<Rightarrow> Inl e
      | Inr (my_move, g2) \<Rightarrow>
      case get_opponent_move inp0 of
        Inl e \<Rightarrow> Inl e
      | Inr (opponent_move, inp1) \<Rightarrow>
      let s3 = meta_switching (s2\<lparr>raw_opponent_moves := raw_opponent_moves s2 @ [opponent_move]\<rparr>);
          reward = get_reward my_move opponent_move in
      case BanditController_update (bandit s3) (history s3) strat_idx reward of
        (Inl e, b) \<Rightarrow> Inl e
      | (Inr u, b) \<Rightarrow>
      let s4 = s3\<lparr>bandit := b\<rparr> in
      case update_all d (objects s4) (strategies_local s4) my_move opponent_move of
        Inl e \<Rightarrow> Inl e
      | Inr H \<Rightarrow>
      let s5 = s4\<lparr>objects := H, history := history s4 @ [(my_move, opponent_move)]\<rparr> in
      case report s5 my_move opponent_move reward of
        Inl e \<Rightarrow> Inl e
      | Inr s6 \<Rightarrow> Inr (s6, g2, inp1))"

text \<open>The first n rounds of \<^verbatim>\<open>play_rps\<close>; the loop itself has no exit but an exception.\<close>

fun play_rounds ::
  "nat \<Rightarrow> nat \<Rightarrow> rps_state \<Rightarrow> rng \<Rightarrow> string list \<Rightarrow> error + (rps_state \<times> rng \<times> string list)" where
  "play_rounds 0 d s g inp = Inr (s, g, inp)"
| "play_rounds (Suc n) d s g inp =
     (case play_round d s g inp of
        Inl e \<Rightarrow> Inl e
      | Inr (s', g', inp') \<Rightarrow> play_rounds n d s' g' inp')"

definition play_rps :: "nat \<Rightarrow> nat \<Rightarrow> rng \<Rightarrow> string list \<Rightarrow> error + (rps_state \<times> rng \<times> string list)" where
  "play_rps n d g inp = play_rounds n d play_rps_init g inp"

section \<open>Reachable controller states and the selection rule in words\<close>

text \<open>
  The states a controller over the list \<open>l\<close> of strategies can be in: the state its
  constructor leaves, and the state after any call of either method, whether the call
  returned or raised.
\<close>

inductive reachable :: "ref list \<Rightarrow> BanditController \<Rightarrow> bool" for l :: "ref list" where
  reachable_init: "reachable l (BanditController_init (Some l))"
| reachable_select: "reachable l c \<Longrightarrow> reachable l (snd (select_strategy c h))"
| reachable_update: "reachable l c \<Longrightarrow> reachable l (snd (BanditController_update c h index reward))"

text \<open>
  The statistics of one context over n predictors: one entry for each index below n, in
  order, each with a pull count of at least 1.
\<close>

definition stats_ok :: "nat \<Rightarrow> arm_stats \<Rightarrow> bool" where
  "stats_ok n stats = (map fst stats = [0..<n] \<and> list_all (\<lambda>(i, r, c). 1 \<le> c) stats)"

definition controller_ok :: "ref list \<Rightarrow> BanditController \<Rightarrow> bool" where
  "controller_ok l c =
     (strategies c = Some l
      \<and> (\<forall>ctx stats. context_memory c ctx = Some stats \<longrightarrow> stats_ok (length l) stats))"

text \<open>
  The UCB1 score as the specification words it: average reward plus twice the square
  root of ln(total pulls in the context) over the pull count.
\<close>

definition cumulative_reward :: "arm_stats \<Rightarrow> nat \<Rightarrow> real" where
  "cumulative_reward stats i = (case map_of stats i of None \<Rightarrow> 0 | Some (r, c) \<Rightarrow> r)"

definition pull_count :: "arm_stats \<Rightarrow> nat \<Rightarrow> int" where
  "pull_count stats i = (case map_of stats i of None \<Rightarrow> 0 | Some (r, c) \<Rightarrow> c)"

definition spec_ucb1 :: "arm_stats \<Rightarrow> nat \<Rightarrow> real" where
  "spec_ucb1 stats i =
     cumulative_reward stats i / real_of_int (pull_count stats i)
     + 2 * sqrt (ln (real_of_int (total_pulls stats)) / real_of_int (pull_count stats i))"

section \<open>Properties\<close>

lemma FrequencyCounter_predict_three:
  "FrequencyCounter_predict [(''R'', r), (''P'', p), (''S'', s)] = Inr (first_max_RPS r p s)"
  by (simp add: FrequencyCounter_predict_def dict_argmax_def first_max_RPS_def)

lemma FrequencyCounter_update_three:
  "is_move m \<Longrightarrow>
   FrequencyCounter_update [(''R'', r), (''P'', p), (''S'', s)] m =
     Inr [(''R'', r + (if m = ''R'' then 1 else 0)),
          (''P'', p + (if m = ''P'' then 1 else 0)),
          (''S'', s + (if m = ''S'' then 1 else 0))]"
  by (auto simp add: FrequencyCounter_update_def is_move_def)

lemma FrequencyCounter_run_three:
  "\<forall>m \<in> set ms. is_move m \<Longrightarrow>
   FrequencyCounter_run [(''R'', r), (''P'', p), (''S'', s)] ms =
     Inr [(''R'', r + int (count_list ms ''R'')),
          (''P'', p + int (count_list ms ''P'')),
          (''S'', s + int (count_list ms ''S''))]"
proof (induction ms arbitrary: r p s)
  case Nil
  then show ?case by simp
next
  case (Cons m ms)
  then have m: "is_move m" and rest: "\<forall>x \<in> set ms. is_move x" by simp_all
  show ?case
    using m by (auto simp add: FrequencyCounter_update_three Cons.IH [OF rest] is_move_def)
qed

text \<open>
  C10. FrequencyCounter.predict is a function of the counts alone. After any sequence of
  updates with moves it returns the most frequent opponent move, a tie among the largest
  counts going to R before P before S; before any update it returns R.
\<close>

theorem FrequencyCounter_predict_deterministic:
  assumes "\<forall>m \<in> set ms. is_move m"
  shows "\<exists>counts. FrequencyCounter_run FrequencyCounter_init ms = Inr counts
           \<and> FrequencyCounter_predict counts =
               Inr (first_max_RPS (int (count_list ms ''R'')) (int (count_list ms ''P''))
                      (int (count_list ms ''S'')))
           \<and> FrequencyCounter_predict FrequencyCounter_init = Inr ''R''"
  using FrequencyCounter_run_three [OF assms, of 0 0 0]
  by (simp add: FrequencyCounter_init_def FrequencyCounter_predict_three first_max_RPS_def)

theorem FrequencyCounter_predict_deterministic_witness:
  "list_all is_move [''P'', ''S'', ''S'', ''P'']
   \<and> FrequencyCounter_run FrequencyCounter_init [''P'', ''S'', ''S'', ''P'']
       = Inr [(''R'', 0), (''P'', 2), (''S'', 2)]
   \<and> FrequencyCounter_predict [(''R'', 0), (''P'', 2), (''S'', 2)] = Inr ''P''"
  using FrequencyCounter_predict_deterministic [of "[''P'', ''S'', ''S'', ''P'']"]
  by (simp add: is_move_def FrequencyCounter_init_def FrequencyCounter_update_def
      FrequencyCounter_predict_three first_max_RPS_def)

text \<open>
  C9. On the three moves get_reward is antisymmetric: the reward of a against b is the
  negation of the reward of b against a when a and b differ, and a move against itself
  earns 0.
\<close>

theorem get_reward_antisymmetric:
  assumes "is_move a" and "is_move b"
  shows "(a \<noteq> b \<longrightarrow> get_reward a b = - get_reward b a) \<and> get_reward a a = 0"
  using assms by (auto simp add: is_move_def get_reward_def)

theorem get_reward_antisymmetric_witness:
  "is_move ''R'' \<and> is_move ''S'' \<and> get_reward ''R'' ''S'' = 1 \<and> get_reward ''S'' ''R'' = - 1
   \<and> get_reward ''R'' ''R'' = 0"
  using get_reward_antisymmetric [of "''R''" "''S''"]
  by (simp add: is_move_def get_reward_def)

subsection \<open>The controller\<close>

lemma total_pulls_ge:
  "list_all (\<lambda>(i, r, c). 1 \<le> c) stats \<Longrightarrow> int (length stats) \<le> total_pulls stats"
  by (induction stats) (auto simp add: total_pulls_def)

lemma stats_ok_length: "stats_ok n stats \<Longrightarrow> length stats = n"
proof -
  assume "stats_ok n stats"
  then have "length (map fst stats) = length [0..<n]" by (simp add: stats_ok_def)
  then show ?thesis by simp
qed

lemma stats_ok_total: "stats_ok n stats \<Longrightarrow> int n \<le> total_pulls stats"
  using total_pulls_ge [of stats] stats_ok_length [of n stats] by (simp add: stats_ok_def)

lemma stats_ok_lookup:
  assumes "stats_ok n stats" and "i < n"
  shows "\<exists>r c. map_of stats i = Some (r, c) \<and> 1 \<le> c"
proof -
  from assms have "set (map fst stats) = {0..<n}" by (simp add: stats_ok_def)
  with assms(2) have "i \<in> fst ` set stats" by simp
  then have "i \<in> dom (map_of stats)" by (simp add: dom_map_of_conv_image_fst)
  then obtain v where v: "map_of stats i = Some v" by blast
  then have "(i, v) \<in> set stats" by (rule map_of_SomeD)
  with assms(1) have "1 \<le> snd (snd (i, v))"
    unfolding stats_ok_def list_all_iff by fastforce
  with v show ?thesis by (cases v) simp
qed

lemma stats_ok_fresh: "stats_ok n (map (\<lambda>i. (i, (0, 1))) [0..<n])"
  by (simp add: stats_ok_def list_all_iff comp_def)

lemma stats_ok_nth:
  assumes "stats_ok n stats" and "i < n"
  shows "map_of stats i = Some (snd (stats ! i))"
proof -
  from assms(1) have keys: "map fst stats = [0..<n]" by (simp add: stats_ok_def)
  then have len: "length stats = n" using stats_ok_length [OF assms(1)] by simp
  from keys have d: "distinct (map fst stats)" by simp
  from keys assms(2) len have "fst (stats ! i) = i"
    by (metis nth_map nth_upt add_0)
  with assms(2) len have "(i, snd (stats ! i)) \<in> set stats"
    by (metis nth_mem prod.collapse)
  with d show ?thesis by simp
qed

lemma total_pulls_as_sum:
  assumes "stats_ok n stats"
  shows "total_pulls stats = (\<Sum>i<n. pull_count stats i)"
proof -
  have len: "length stats = n" by (rule stats_ok_length [OF assms])
  have "total_pulls stats = (\<Sum>i = 0..<length stats. (map (\<lambda>(i, r, c). c) stats) ! i)"
    using sum_list_sum_nth [of "map (\<lambda>(i, r, c). c) stats"] by (simp add: total_pulls_def)
  also have "\<dots> = (\<Sum>i = 0..<n. pull_count stats i)"
  proof (rule sum.cong)
    show "{0..<length stats} = {0..<n}" by (simp add: len)
  next
    fix i assume "i \<in> {0..<n}"
    then have i: "i < n" by simp
    from stats_ok_nth [OF assms i] have "pull_count stats i = snd (snd (stats ! i))"
      by (simp add: pull_count_def split: prod.splits)
    with i len show "(map (\<lambda>(i, r, c). c) stats) ! i = pull_count stats i"
      by (simp add: split_def)
  qed
  finally show ?thesis by (simp add: lessThan_atLeast0)
qed

lemma add_pull_ok:
  "add_pull stats index reward = Inr stats' \<Longrightarrow>
   map fst stats' = map fst stats \<and>
   (list_all (\<lambda>(i, r, c). 1 \<le> c) stats \<longrightarrow> list_all (\<lambda>(i, r, c). 1 \<le> c) stats')"
proof (induction stats arbitrary: stats')
  case Nil
  then show ?case by simp
next
  case (Cons e stats)
  obtain i r c where e: "e = (i, r, c)" by (cases e)
  show ?case
  proof (cases "i = index")
    case True
    with Cons.prems e show ?thesis by auto
  next
    case False
    with Cons.prems e obtain t where t: "add_pull stats index reward = Inr t"
      and s': "stats' = (i, r, c) # t"
      by (auto split: sum.splits)
    from Cons.IH [OF t] s' e show ?thesis by simp
  qed
qed

lemma add_pull_stats_ok:
  "stats_ok n stats \<Longrightarrow> add_pull stats index reward = Inr stats' \<Longrightarrow> stats_ok n stats'"
  using add_pull_ok [of stats index reward stats'] by (simp add: stats_ok_def)

lemma ensure_context_result:
  assumes "controller_ok l c"
  shows "\<exists>stats c'. ensure_context c ctx = (Inr stats, c')
           \<and> controller_ok l c'
           \<and> context_memory c' ctx = Some stats
           \<and> stats_ok (length l) stats"
proof (cases "context_memory c ctx")
  case None
  with assms show ?thesis
    by (simp add: controller_ok_def ensure_context_def fresh_stats_def stats_ok_fresh)
next
  case (Some stats)
  with assms show ?thesis
    by (simp add: controller_ok_def ensure_context_def)
qed

lemma select_strategy_snd: "snd (select_strategy c h) = snd (ensure_context c (context_key h))"
  by (simp add: select_strategy_def split: prod.splits sum.splits option.splits)

lemma select_ok:
  assumes "controller_ok l c"
  shows "controller_ok l (snd (select_strategy c h))"
  using ensure_context_result [OF assms, of "context_key h"]
  by (auto simp add: select_strategy_snd)

lemma update_ok:
  assumes "controller_ok l c"
  shows "controller_ok l (snd (BanditController_update c h index reward))"
proof -
  obtain stats c' where e: "ensure_context c (context_key h) = (Inr stats, c')"
    and c': "controller_ok l c'" and ok: "stats_ok (length l) stats"
    using ensure_context_result [OF assms, of "context_key h"] by blast
  show ?thesis
  proof (cases "add_pull stats index reward")
    case (Inl err)
    with e c' show ?thesis
      by (simp add: BanditController_update_def)
  next
    case (Inr stats')
    with ok have "stats_ok (length l) stats'" by (rule add_pull_stats_ok)
    with e c' Inr show ?thesis
      by (simp add: BanditController_update_def controller_ok_def)
  qed
qed

lemma reachable_ok: "reachable l c \<Longrightarrow> controller_ok l c"
proof (induction rule: reachable.induct)
  case reachable_init
  show ?case by (simp add: controller_ok_def BanditController_init_def)
next
  case (reachable_select c h)
  then show ?case by (simp add: select_ok)
next
  case (reachable_update c h index reward)
  then show ?case by (simp add: update_ok)
qed

lemma ucb_score_ok:
  assumes "stats_ok n stats" and "i < n"
  shows "ucb_score stats (total_pulls stats) i = Inr (Some (spec_ucb1 stats i))"
proof -
  obtain r c where rc: "map_of stats i = Some (r, c)" and c: "1 \<le> c"
    using stats_ok_lookup [OF assms] by blast
  have "int n \<le> total_pulls stats" by (rule stats_ok_total [OF assms(1)])
  with assms(2) have t: "1 \<le> total_pulls stats" by linarith
  then have "0 \<le> ln (real_of_int (total_pulls stats))" by simp
  with c have nonneg: "0 \<le> ln (real_of_int (total_pulls stats)) / real_of_int c" by simp
  from nonneg have half: "(ln (real_of_int (total_pulls stats)) / real_of_int c) powr (1 / 2)
               = sqrt (ln (real_of_int (total_pulls stats)) / real_of_int c)"
    by (rule powr_half_sqrt)
  from c have c0: "(c = 0) = False" by simp
  from t have t0: "(total_pulls stats \<le> 0) = False" by simp
  from nonneg have q: "(ln (real_of_int (total_pulls stats)) / real_of_int c < 0) = False"
    by (simp only: not_less [symmetric] simp_thms)
  show ?thesis
    unfolding ucb_score_def spec_ucb1_def cumulative_reward_def pull_count_def
    by (simp only: rc option.case prod.case c0 t0 q if_False half)
qed

lemma ucb_scores_ok:
  assumes "stats_ok n stats" and "\<forall>i \<in> set is. i < n"
  shows "ucb_scores stats (total_pulls stats) is = Inr (map (\<lambda>i. Some (spec_ucb1 stats i)) is)"
  using assms(2)
proof (induction "is")
  case Nil
  show ?case by simp
next
  case (Cons i "is")
  then have "i < n" and "\<forall>j \<in> set is. j < n" by simp_all
  with Cons.IH ucb_score_ok [OF assms(1), of i] show ?case by simp
qed

lemma py_index_first:
  "v \<in> set xs \<Longrightarrow>
   \<exists>i. py_index xs v = Some i \<and> i < length xs \<and> xs ! i = v \<and> (\<forall>j < i. xs ! j \<noteq> v)"
proof (induction xs)
  case Nil
  then show ?case by simp
next
  case (Cons x xs)
  show ?case
  proof (cases "x = v")
    case True
    then show ?thesis by simp
  next
    case False
    with Cons.prems have "v \<in> set xs" by simp
    from Cons.IH [OF this] obtain i where i: "py_index xs v = Some i" "i < length xs"
      "xs ! i = v" "\<forall>j < i. xs ! j \<noteq> v" by blast
    have "\<forall>j < Suc i. (x # xs) ! j \<noteq> v"
    proof (intro allI impI)
      fix j assume "j < Suc i"
      with False i(4) show "(x # xs) ! j \<noteq> v" by (cases j) simp_all
    qed
    with False i show ?thesis by simp
  qed
qed

lemma index_of_max_first:
  fixes xs :: "real list"
  assumes "xs \<noteq> []"
  shows "\<exists>i. index_of_max (map Some xs) = Inr i \<and> i < length xs
           \<and> (\<forall>j < length xs. xs ! j \<le> xs ! i) \<and> (\<forall>j < i. xs ! j < xs ! i)"
proof (cases xs)
  case Nil
  with assms show ?thesis by simp
next
  case (Cons x ys)
  show ?thesis
  proof (cases ys)
    case Nil
    with Cons show ?thesis by (simp add: index_of_max_def)
  next
    case (Cons y zs)
    let ?m = "fold max (y # zs) x"
    have m: "?m = Max (set xs)"
      using \<open>xs = x # ys\<close> Cons Max.set_eq_fold [of x "y # zs"] by simp
    have "Max (set xs) \<in> set xs" using assms by (intro Max_in) simp_all
    with m have "?m \<in> set xs" by simp
    from py_index_first [OF this] obtain i where i: "py_index xs ?m = Some i" "i < length xs"
      "xs ! i = ?m" "\<forall>j < i. xs ! j \<noteq> ?m" by blast
    have le: "\<forall>j < length xs. xs ! j \<le> ?m"
      using m by (simp add: Max_ge)
    have lt: "\<forall>j < i. xs ! j < ?m"
    proof (intro allI impI)
      fix j assume j: "j < i"
      with i(2) le have "xs ! j \<le> ?m" by simp
      moreover from i(4) j have "xs ! j \<noteq> ?m" by simp
      ultimately show "xs ! j < ?m" by simp
    qed
    have the_map: "map (the \<circ> Some) zs = zs" by (simp add: comp_def)
    have "index_of_max (map Some xs) = Inr i"
      using \<open>xs = x # ys\<close> Cons i(1)
      by (auto simp add: index_of_max_def the_map)
    with i le lt show ?thesis by auto
  qed
qed

lemma select_strategy_result:
  assumes "controller_ok l c" and "l \<noteq> []"
  shows "\<exists>i c' stats. select_strategy c h = (Inr i, c')
           \<and> c' = snd (ensure_context c (context_key h))
           \<and> context_memory c' (context_key h) = Some stats
           \<and> total_pulls stats = (\<Sum>j<length l. pull_count stats j)
           \<and> i < length l
           \<and> (\<forall>j < length l. spec_ucb1 stats j \<le> spec_ucb1 stats i)
           \<and> (\<forall>j < i. spec_ucb1 stats j < spec_ucb1 stats i)"
proof -
  let ?n = "length l"
  obtain stats c' where e: "ensure_context c (context_key h) = (Inr stats, c')"
    and c': "controller_ok l c'" and mem: "context_memory c' (context_key h) = Some stats"
    and ok: "stats_ok ?n stats"
    using ensure_context_result [OF assms(1), of "context_key h"] by blast
  let ?xs = "map (spec_ucb1 stats) [0..<?n]"
  have scores: "ucb_scores stats (total_pulls stats) [0..<?n] = Inr (map Some ?xs)"
    using ucb_scores_ok [OF ok, of "[0..<?n]"] by (simp add: comp_def)
  from assms(2) have "?xs \<noteq> []" by simp
  from index_of_max_first [OF this] obtain i where i: "index_of_max (map Some ?xs) = Inr i"
    "i < ?n" "\<forall>j < ?n. ?xs ! j \<le> ?xs ! i" "\<forall>j < i. ?xs ! j < ?xs ! i"
    by auto
  from c' have strat: "strategies c' = Some l" by (simp add: controller_ok_def)
  have sel: "select_strategy c h = (Inr i, c')"
    using e strat scores i(1) by (simp add: select_strategy_def)
  have le: "\<forall>j < ?n. spec_ucb1 stats j \<le> spec_ucb1 stats i"
    using i(2) i(3) by simp
  have lt: "\<forall>j < i. spec_ucb1 stats j < spec_ucb1 stats i"
    using i(2) i(4) by simp
  from e have "c' = snd (ensure_context c (context_key h))" by simp
  with sel mem i(2) le lt total_pulls_as_sum [OF ok] show ?thesis by blast
qed

text \<open>
  C7. In every state a controller over n predictors can reach, each context it holds has
  for every index below n a pull count of at least 1, so the total of a context is at
  least n and its logarithm is positive once n is at least 2. Neither method raises
  ZeroDivisionError, and both lead to reachable states again.
\<close>

theorem pull_counts_stay_positive:
  assumes "reachable l c"
  shows "(\<forall>ctx stats. context_memory c ctx = Some stats \<longrightarrow>
            (\<forall>i < length l. \<exists>r k. map_of stats i = Some (r, k) \<and> 1 \<le> k)
            \<and> int (length l) \<le> total_pulls stats
            \<and> (2 \<le> length l \<longrightarrow> 0 < ln (real_of_int (total_pulls stats))))
       \<and> (\<forall>h. fst (select_strategy c h) \<noteq> Inl ZeroDivisionError)
       \<and> (\<forall>h index reward. fst (BanditController_update c h index reward) \<noteq> Inl ZeroDivisionError)
       \<and> (\<forall>h. reachable l (snd (select_strategy c h)))
       \<and> (\<forall>h index reward. reachable l (snd (BanditController_update c h index reward)))"
proof -
  have ok: "controller_ok l c" by (rule reachable_ok [OF assms])
  have stats: "\<forall>ctx stats. context_memory c ctx = Some stats \<longrightarrow>
            (\<forall>i < length l. \<exists>r k. map_of stats i = Some (r, k) \<and> 1 \<le> k)
            \<and> int (length l) \<le> total_pulls stats
            \<and> (2 \<le> length l \<longrightarrow> 0 < ln (real_of_int (total_pulls stats)))"
  proof (intro allI impI)
    fix ctx stats
    assume "context_memory c ctx = Some stats"
    with ok have s: "stats_ok (length l) stats" by (simp add: controller_ok_def)
    have t: "int (length l) \<le> total_pulls stats" by (rule stats_ok_total [OF s])
    have "2 \<le> length l \<longrightarrow> 0 < ln (real_of_int (total_pulls stats))"
    proof
      assume "2 \<le> length l"
      with t have "2 \<le> total_pulls stats" by linarith
      then have "1 < real_of_int (total_pulls stats)" by simp
      then show "0 < ln (real_of_int (total_pulls stats))" by simp
    qed
    with t stats_ok_lookup [OF s] show "(\<forall>i < length l. \<exists>r k. map_of stats i = Some (r, k) \<and> 1 \<le> k)
            \<and> int (length l) \<le> total_pulls stats
            \<and> (2 \<le> length l \<longrightarrow> 0 < ln (real_of_int (total_pulls stats)))"
      by blast
  qed
  have sel: "\<forall>h. fst (select_strategy c h) \<noteq> Inl ZeroDivisionError"
  proof
    fix h
    show "fst (select_strategy c h) \<noteq> Inl ZeroDivisionError"
    proof (cases "l = []")
      case True
      obtain st c' where e: "ensure_context c (context_key h) = (Inr st, c')"
        and c': "controller_ok l c'"
        using ensure_context_result [OF ok, of "context_key h"] by blast
      from c' True have "strategies c' = Some []" by (simp add: controller_ok_def)
      with e show ?thesis by (simp add: select_strategy_def index_of_max_def)
    next
      case False
      from select_strategy_result [OF ok False, of h] show ?thesis by auto
    qed
  qed
  have upd: "\<forall>h index reward. fst (BanditController_update c h index reward) \<noteq> Inl ZeroDivisionError"
  proof (intro allI)
    fix h index reward
    obtain st c' where e: "ensure_context c (context_key h) = (Inr st, c')"
      using ensure_context_result [OF ok, of "context_key h"] by blast
    have "add_pull st index reward \<noteq> Inl ZeroDivisionError" for st
      by (induction st index reward rule: add_pull.induct) (auto split: sum.splits)
    with e show "fst (BanditController_update c h index reward) \<noteq> Inl ZeroDivisionError"
      by (auto simp add: BanditController_update_def split: sum.splits)
  qed
  from stats sel upd assms show ?thesis
    by (simp add: reachable_select reachable_update)
qed

theorem pull_counts_stay_positive_witness:
  "reachable [0, 1, 2, 3]
     (snd (BanditController_update (BanditController_init (Some [0, 1, 2, 3])) [] 2 1))
   \<and> context_memory
        (snd (BanditController_update (BanditController_init (Some [0, 1, 2, 3])) [] 2 1))
        [None, None, None]
      = Some [(0, (0, 1)), (1, (0, 1)), (2, (1, 2)), (3, (0, 1))]
   \<and> total_pulls [(0, (0, 1)), (1, (0, 1)), (2, (1, 2)), (3, (0, 1))] = 5
   \<and> 0 < ln (real_of_int (total_pulls [(0, (0, 1)), (1, (0, 1)), (2, (1, 2)), (3, (0, 1))]))"
proof -
  let ?l = "[0, 1, 2, 3] :: nat list"
  let ?c = "snd (BanditController_update (BanditController_init (Some ?l)) [] 2 1)"
  let ?stats = "[(0, (0, 1)), (1, (0, 1)), (2, (1, 2)), (3, (0, 1))] :: arm_stats"
  have r: "reachable ?l ?c" by (rule reachable_update [OF reachable_init])
  have upt4: "[0..<4] = [0, 1, 2, 3]" by (simp add: upt_rec)
  have m: "context_memory ?c [None, None, None] = Some ?stats"
    by (simp add: BanditController_update_def ensure_context_def fresh_stats_def upt4
        BanditController_init_def context_key_def eval_nat_numeral)
  have t: "total_pulls ?stats = 5" by (simp add: total_pulls_def)
  from pull_counts_stay_positive [OF r] m
  have "2 \<le> length ?l \<longrightarrow> 0 < ln (real_of_int (total_pulls ?stats))" by blast
  then have "0 < ln (real_of_int (total_pulls ?stats))" by simp
  with r m t show ?thesis by blast
qed

subsection \<open>The main loop and its input\<close>

text \<open>
  C1. The claim fails on the code. \<^verbatim>\<open>play_rps\<close> binds \<^verbatim>\<open>strategies\<close> to the result of
  \<^verbatim>\<open>list.append\<close>, which is None: the controller holds no collection of predictors,
  select_strategy raises TypeError in the first round, and so would the lookup
  \<^verbatim>\<open>strategies[strat_idx]\<close> for any index.
\<close>

theorem play_rps_strategies_is_None:
  "strategies_local play_rps_init = None
   \<and> strategies (bandit play_rps_init) = None
   \<and> select_strategy (bandit play_rps_init) (history play_rps_init)
       = (Inl TypeError, bandit play_rps_init)
   \<and> subscript (strategies_local play_rps_init) strat_idx = Inl TypeError"
  by (simp add: play_rps_init_def BanditController_init_def select_strategy_def
      ensure_context_def fresh_stats_def subscript_def)

lemma first_round_raises: "play_round d play_rps_init g inp = Inl TypeError"
  by (simp add: play_round_def play_rps_init_def BanditController_init_def select_strategy_def
      ensure_context_def fresh_stats_def)

text \<open>
  C2. The claim fails on the code. Whatever the random draws and the input, a run of
  \<^verbatim>\<open>play_rps\<close> ends with TypeError in its first round, before any predictor is updated;
  the update loop of lines 189-190 iterates over the same None and raises TypeError too.
\<close>

theorem play_rps_updates_no_predictor:
  "play_rps (Suc n) d g inp = Inl TypeError
   \<and> update_all d H (strategies_local play_rps_init) my_move opponent_move = Inl TypeError"
proof
  show "play_rps (Suc n) d g inp = Inl TypeError"
    by (simp add: play_rps_def first_round_raises)
  show "update_all d H (strategies_local play_rps_init) my_move opponent_move = Inl TypeError"
    by (simp add: update_all_def play_rps_init_def)
qed

lemma report_message:
  "report s my_move opponent_move reward = Inr s' \<Longrightarrow>
   message (last (printed s')) = (if reward = 0 then ''You win!'' else ''AI wins!'')
   \<and> ai_wins s' = ai_wins s + (if reward = 0 then 0 else 1)
   \<and> player_wins s' = player_wins s + (if reward = 0 then 1 else 0)"
  by (auto simp add: report_def Let_def split: if_splits)

lemma str_in_RPS:
  "str_in a ''RPS'' \<and> a \<noteq> [] \<longleftrightarrow> a \<in> set [''R'', ''P'', ''S'', ''RP'', ''PS'', ''RPS'']"
proof -
  have sw: "starts_with (x # b) a = (case a of [] \<Rightarrow> True | y # a' \<Rightarrow> x = y \<and> starts_with b a')"
    for x b a by (cases a) simp_all
  have sw0: "starts_with [] a = (a = [])" for a by (cases a) simp_all
  show ?thesis
    by (auto simp add: sw sw0 split: list.splits)
qed

lemma get_opponent_move_returns:
  "get_opponent_move inp = Inr (m, rest) \<Longrightarrow>
   m \<in> set [''R'', ''P'', ''S'', ''RP'', ''PS'', ''RPS'']"
proof (induction inp)
  case Nil
  then show ?case by simp
next
  case (Cons line inp)
  show ?case
  proof (cases "str_in (upper line) ''RPS'' \<and> upper line \<noteq> []")
    case True
    with Cons.prems have "m = upper line" by (simp del: str_in.simps)
    with True have "str_in m ''RPS'' \<and> m \<noteq> []" by (simp del: str_in.simps)
    then show ?thesis by (simp only: str_in_RPS)
  next
    case False
    with Cons.prems have "get_opponent_move inp = Inr (m, rest)"
      by (simp del: str_in.simps split: if_splits)
    then show ?thesis by (rule Cons.IH)
  qed
qed

text \<open>
  C5. The claim fails on the code. The input line rp is returned as the move RP, and the
  line RPS as RPS, neither of which is a move; the empty line and x are passed over, and
  e ends the program.
\<close>

theorem get_opponent_move_returns_two_characters:
  "get_opponent_move [''rp''] = Inr (''RP'', [])
   \<and> get_opponent_move [''RPS'', ''S''] = Inr (''RPS'', [''S''])
   \<and> \<not> is_move ''RP''
   \<and> get_opponent_move ['''', ''x'', ''s''] = Inr (''S'', [])
   \<and> get_opponent_move [''e'', ''r''] = Inl SystemExit"
  by (simp add: upper_def upper_char_def is_move_def)

text \<open>
  The ensemble that \<^verbatim>\<open>play_rps\<close> builds is a member of its own list, so a call of its
  update method never returns: it recurses until the stack is used up.
\<close>

lemma base_update_keeps_others:
  assumes "\<forall>ms. H r \<noteq> FuzzyVotingStrategy ms"
    and "update_strategy d H r a b = Inr H'"
  shows "(\<forall>ms. H' r \<noteq> FuzzyVotingStrategy ms) \<and> (\<forall>q. q \<noteq> r \<longrightarrow> H' q = H q)"
proof (cases d)
  case 0
  with assms(2) show ?thesis by simp
next
  case (Suc k)
  with assms show ?thesis
    by (cases "H r") (auto split: sum.splits)
qed

lemma ensemble_update_raises:
  assumes "\<forall>ms. H 0 \<noteq> FuzzyVotingStrategy ms" and "\<forall>ms. H 1 \<noteq> FuzzyVotingStrategy ms"
    and "\<forall>ms. H 2 \<noteq> FuzzyVotingStrategy ms" and "H 3 = FuzzyVotingStrategy [0, 1, 2, 3]"
  shows "\<exists>e. update_strategy d H 3 a b = Inl e"
  using assms
proof (induction d arbitrary: H)
  case 0
  show ?case by simp
next
  case (Suc d)
  show ?case
  proof (cases "update_strategy d H 0 a b")
    case (Inl e)
    with Suc.prems(4) show ?thesis by simp
  next
    case H1: (Inr H1)
    from base_update_keeps_others [OF Suc.prems(1) H1] Suc.prems
    have p1: "\<forall>ms. H1 0 \<noteq> FuzzyVotingStrategy ms" "\<forall>ms. H1 1 \<noteq> FuzzyVotingStrategy ms"
      "\<forall>ms. H1 2 \<noteq> FuzzyVotingStrategy ms" "H1 3 = FuzzyVotingStrategy [0, 1, 2, 3]"
      by simp_all
    show ?thesis
    proof (cases "update_strategy d H1 1 a b")
      case (Inl e)
      with Suc.prems(4) H1 show ?thesis by simp
    next
      case H2: (Inr H2)
      from base_update_keeps_others [OF p1(2) H2] p1
      have p2: "\<forall>ms. H2 0 \<noteq> FuzzyVotingStrategy ms" "\<forall>ms. H2 1 \<noteq> FuzzyVotingStrategy ms"
        "\<forall>ms. H2 2 \<noteq> FuzzyVotingStrategy ms" "H2 3 = FuzzyVotingStrategy [0, 1, 2, 3]"
        by simp_all
      show ?thesis
      proof (cases "update_strategy d H2 2 a b")
        case (Inl e)
        with Suc.prems(4) H1 H2 show ?thesis by simp
      next
        case H3: (Inr H3)
        from base_update_keeps_others [OF p2(3) H3] p2
        have p3: "\<forall>ms. H3 0 \<noteq> FuzzyVotingStrategy ms" "\<forall>ms. H3 1 \<noteq> FuzzyVotingStrategy ms"
          "\<forall>ms. H3 2 \<noteq> FuzzyVotingStrategy ms" "H3 3 = FuzzyVotingStrategy [0, 1, 2, 3]"
          by simp_all
        from Suc.IH [OF p3] obtain e where "update_strategy d H3 3 a b = Inl e" by blast
        with Suc.prems(4) H1 H2 H3 show ?thesis by simp
      qed
    qed
  qed
qed

lemma play_rps_ensemble_update_raises:
  "\<exists>e. update_strategy d play_rps_objects 3 a b = Inl e"
  by (rule ensemble_update_raises) (simp_all add: play_rps_objects_def)

text \<open>
  The loop of lines 189-190 calls update on every element of the list it is given, and an
  ensemble in that list forwards the call to its members: a predictor that is in the
  list and also a member of an ensemble in the list is advanced twice in one pass.
\<close>

lemma shared_member_updated_twice:
  assumes "H 0 = FrequencyCounter [(''R'', r), (''P'', p), (''S'', s)]"
    and "H 1 = FuzzyVotingStrategy [0]"
  shows "\<exists>H'. update_all 2 H (Some [0, 1]) my_move ''R'' = Inr H'
           \<and> H' 0 = FrequencyCounter [(''R'', r + 2), (''P'', p), (''S'', s)]"
  using assms
  by (simp add: update_all_def numeral_2_eq_2 FrequencyCounter_update_def)

end
